theory Spec2Isabelle
  imports Complex_Main "HOL-Library.Word" "HOL-Library.Log_Nat" "HOL-Library.Monad_Syntax"
begin

unbundle bit_operations_syntax

section \<open>Numbers, errors and data\<close>

text \<open>
  The repository is Cython and computes with \<^verbatim>\<open>double\<close>. Two readings of a
  \<^verbatim>\<open>double\<close> are used here.

  In the collision code, the division operators, the matrix code and \<^verbatim>\<open>apply_force\<close> a
  \<^verbatim>\<open>double\<close> is a \<^typ>\<open>real\<close> and \<open>+\<close>, \<open>-\<close>, \<open>*\<close>, \<open>/\<close> are the operations of the reals. What
  is proved there is about the control flow and the formulas, with every test read as
  the test the code computes.

  Where a property depends on rounding, on overflow or on NaN (the loops of
  \<^verbatim>\<open>apply_torque\<close>, the inverse square root, \<^verbatim>\<open>normalize\<close>), a \<^verbatim>\<open>double\<close> is a value of
  the type \<open>double\<close> of the section on binary64 arithmetic, and every operation rounds
  as the hardware does.

  A raised Python exception is a value of \<open>error\<close>; a function that can raise returns
  \<open>error + 'a\<close> with \<open>Inl\<close> for the exception.
\<close>

datatype error = ValueError | ZeroDivisionError

text \<open>
  \<^verbatim>\<open>cdef class Entity\<close> (rigidbody.pxd, physics.pxd): eight public fields. The fields
  \<^verbatim>\<open>x\<close> and \<^verbatim>\<open>y\<close> are written \<open>x_ent\<close> and \<open>y_ent\<close>, the fields of the vector
  classes \<open>x_v2\<close>, \<open>y_v2\<close> and so on.
\<close>

record Entity =
  x_ent :: real
  y_ent :: real
  vx :: real
  vy :: real
  mass :: real
  rotation :: real
  active :: bool
  radius :: real

record Vector2 =
  x_v2 :: real
  y_v2 :: real

record Vector3 =
  x_v3 :: real
  y_v3 :: real
  z_v3 :: real

record Vector4 =
  x_v4 :: real
  y_v4 :: real
  z_v4 :: real
  w_v4 :: real

text \<open>\<^verbatim>\<open>Entity.__init__\<close>: the field values of a fresh entity.\<close>

definition Entity_init :: Entity where
  "Entity_init = \<lparr>x_ent = 0.0, y_ent = 0.0, vx = 0.0, vy = 0.0, mass = 1.0,
                   rotation = 0.0, active = True, radius = 0.0\<rparr>"

section \<open>Binary64 arithmetic\<close>

text \<open>
  IEEE 754 binary64 with rounding to nearest, ties to even, which is what the C code
  compiled from these modules computes with. A finite double is the real number it
  stands for. \<open>binade x\<close> is the exponent \<open>e\<close> with \<open>2\<^sup>e \<le> |x| < 2\<^sup>e\<^sup>+\<^sup>1\<close>, written with the
  bit length of an integer so that it can be evaluated; \<open>ulp x\<close> is the spacing of the
  doubles around \<open>x\<close>: \<open>2\<^sup>e\<^sup>-\<^sup>5\<^sup>2\<close>, and \<open>2\<^sup>-\<^sup>1\<^sup>0\<^sup>7\<^sup>4\<close> throughout the subnormal range; \<open>fl x\<close> is
  the multiple of \<open>ulp x\<close> nearest to \<open>x\<close>, the even one of two equally near.
\<close>

definition binade :: "real \<Rightarrow> int" where
  "binade x = (if 1 \<le> \<bar>x\<bar> then bitlen \<lfloor>\<bar>x\<bar>\<rfloor> - 1 else - bitlen (\<lceil>1 / \<bar>x\<bar>\<rceil> - 1))"

definition ulp :: "real \<Rightarrow> real" where
  "ulp x = 2 powi (max (binade x) (- 1022) - 52)"

definition round_even :: "real \<Rightarrow> int" where
  "round_even q =
     (let f = \<lfloor>q\<rfloor>; d = q - of_int f
      in if d < 1 / 2 then f else if 1 / 2 < d then f + 1 else if even f then f else f + 1)"

definition fl :: "real \<Rightarrow> real" where
  "fl x = of_int (round_even (x / ulp x)) * ulp x"

text \<open>
  The values of a \<^verbatim>\<open>double\<close>: the finite ones, the two infinities and NaN. The sign of
  a zero is not represented: \<^verbatim>\<open>-0.0\<close> and \<^verbatim>\<open>0.0\<close> are both \<open>Finite 0\<close>. They compare equal
  in C and differ only as divisors, and a zero divisor is read as \<^verbatim>\<open>+0.0\<close> below; none
  of the functions modelled with this type divides by a zero on a path a theorem is
  about. One NaN stands for all NaNs.

  \<open>round64\<close> is the rounding of an exact result: to the nearest double, and to an
  infinity when that double would be \<open>2\<^sup>1\<^sup>0\<^sup>2\<^sup>4\<close> or beyond.
\<close>

datatype double = Finite real | PInf | NInf | NaN

definition round64 :: "real \<Rightarrow> double" where
  "round64 x =
     (let y = fl x
      in if binade y < 1024 then Finite y else if 0 < y then PInf else NInf)"

text \<open>
  The operators of C on doubles. On finite operands each one rounds the exact result;
  the other cases are those of IEEE 754.
\<close>

fun dneg :: "double \<Rightarrow> double" where
  "dneg (Finite a) = Finite (- a)"
| "dneg PInf = NInf"
| "dneg NInf = PInf"
| "dneg NaN = NaN"

fun dadd :: "double \<Rightarrow> double \<Rightarrow> double" where
  "dadd (Finite a) (Finite b) = round64 (a + b)"
| "dadd NaN _ = NaN"
| "dadd _ NaN = NaN"
| "dadd PInf NInf = NaN"
| "dadd NInf PInf = NaN"
| "dadd PInf _ = PInf"
| "dadd _ PInf = PInf"
| "dadd NInf _ = NInf"
| "dadd _ NInf = NInf"

definition dsub :: "double \<Rightarrow> double \<Rightarrow> double" where
  "dsub a b = dadd a (dneg b)"

fun dmul :: "double \<Rightarrow> double \<Rightarrow> double" where
  "dmul (Finite a) (Finite b) = round64 (a * b)"
| "dmul NaN _ = NaN"
| "dmul _ NaN = NaN"
| "dmul (Finite a) PInf = (if a = 0 then NaN else if 0 < a then PInf else NInf)"
| "dmul (Finite a) NInf = (if a = 0 then NaN else if 0 < a then NInf else PInf)"
| "dmul PInf (Finite b) = (if b = 0 then NaN else if 0 < b then PInf else NInf)"
| "dmul NInf (Finite b) = (if b = 0 then NaN else if 0 < b then NInf else PInf)"
| "dmul PInf PInf = PInf"
| "dmul PInf NInf = NInf"
| "dmul NInf PInf = NInf"
| "dmul NInf NInf = PInf"

fun ddiv :: "double \<Rightarrow> double \<Rightarrow> double" where
  "ddiv (Finite a) (Finite b) =
     (if b = 0 then (if a = 0 then NaN else if 0 < a then PInf else NInf)
      else round64 (a / b))"
| "ddiv NaN _ = NaN"
| "ddiv _ NaN = NaN"
| "ddiv (Finite a) PInf = Finite 0"
| "ddiv (Finite a) NInf = Finite 0"
| "ddiv PInf (Finite b) = (if 0 \<le> b then PInf else NInf)"
| "ddiv NInf (Finite b) = (if 0 \<le> b then NInf else PInf)"
| "ddiv PInf PInf = NaN"
| "ddiv PInf NInf = NaN"
| "ddiv NInf PInf = NaN"
| "ddiv NInf NInf = NaN"

text \<open>\<^verbatim>\<open>sqrt\<close> of \<^verbatim>\<open>libc.math\<close>, which IEEE 754 requires to be correctly rounded.\<close>

fun dsqrt :: "double \<Rightarrow> double" where
  "dsqrt (Finite a) = (if a < 0 then NaN else round64 (sqrt a))"
| "dsqrt PInf = PInf"
| "dsqrt NInf = NaN"
| "dsqrt NaN = NaN"

text \<open>The comparisons \<^verbatim>\<open><\<close>, \<^verbatim>\<open><=\<close>, \<^verbatim>\<open>>\<close> and \<^verbatim>\<open>>=\<close>: false whenever an operand is NaN.\<close>

fun dlt :: "double \<Rightarrow> double \<Rightarrow> bool" where
  "dlt (Finite a) (Finite b) = (a < b)"
| "dlt NaN _ = False"
| "dlt _ NaN = False"
| "dlt _ NInf = False"
| "dlt PInf _ = False"
| "dlt NInf _ = True"
| "dlt _ PInf = True"

fun dle :: "double \<Rightarrow> double \<Rightarrow> bool" where
  "dle (Finite a) (Finite b) = (a \<le> b)"
| "dle NaN _ = False"
| "dle _ NaN = False"
| "dle NInf _ = True"
| "dle _ PInf = True"
| "dle _ NInf = False"
| "dle PInf _ = False"

definition dgt :: "double \<Rightarrow> double \<Rightarrow> bool" where
  "dgt a b = dlt b a"

definition dge :: "double \<Rightarrow> double \<Rightarrow> bool" where
  "dge a b = dle b a"

text \<open>
  Modelled from the spec: the constant \<^verbatim>\<open>M_PI\<close>, which the code takes from
  \<^verbatim>\<open>libc.math\<close> and the repository does not define; the spec writes it \<open>\<pi>\<close>. As a double
  it is \<^verbatim>\<open>0x400921FB54442D18\<close>, that is \<open>884279719003555 / 2\<^sup>4\<^sup>8\<close>, the double nearest to
  \<open>\<pi>\<close> and a little below it.
\<close>

definition M_PI :: double where
  "M_PI = Finite (884279719003555 / 281474976710656)"

text \<open>
  The partial sums of the series of \<open>arctan\<close>, with which \<open>\<pi>\<close> is bounded to relate
  \<^verbatim>\<open>M_PI\<close> to it.
\<close>

definition arctan_sum :: "real \<Rightarrow> nat \<Rightarrow> real" where
  "arctan_sum x n = (\<Sum>i<n. (- 1) ^ i * (1 / real (i * 2 + 1) * x ^ (i * 2 + 1)))"

section \<open>RigidBodyIntegrator: forces and torques\<close>


text \<open>
  The two loops that end \<^verbatim>\<open>apply_torque\<close>:
  \<^verbatim>\<open>while entity.rotation >= 2*M_PI: entity.rotation -= 2*M_PI\<close> and
  \<^verbatim>\<open>while entity.rotation < 0.0: entity.rotation += 2*M_PI\<close>,
  in binary64. Whether they end depends on the rounding of the subtraction and of the
  addition, so they are partial functions: \<open>None\<close> is a loop that never ends.
\<close>

partial_function (option) rotation_sub_loop :: "double \<Rightarrow> double option" where
  "rotation_sub_loop r =
     (if dge r (dmul (Finite 2) M_PI) then rotation_sub_loop (dsub r (dmul (Finite 2) M_PI))
      else Some r)"

partial_function (option) rotation_add_loop :: "double \<Rightarrow> double option" where
  "rotation_add_loop r =
     (if dlt r (Finite 0.0) then rotation_add_loop (dadd r (dmul (Finite 2) M_PI))
      else Some r)"

text \<open>
  \<^verbatim>\<open>apply_torque(entity, torque)\<close>: returns at once when \<^verbatim>\<open>entity.mass == 0\<close>, otherwise
  \<^verbatim>\<open>entity.rotation += torque / entity.mass\<close> and then the two loops. The result is
  \<open>None\<close> when the call never returns. The fields of \<open>Entity\<close> hold finite numbers; the
  last line stores the rotation the loops end with, which is always finite (lemma
  \<open>apply_torque_None\<close>: with a mass other than 0 the result is \<open>None\<close> only if one of
  the loops does not end).
\<close>

definition apply_torque :: "Entity \<Rightarrow> real \<Rightarrow> Entity option" where
  "apply_torque entity torque =
     (if mass entity = 0 then Some entity
      else do {
        r \<leftarrow> rotation_sub_loop
               (dadd (Finite (rotation entity)) (ddiv (Finite torque) (Finite (mass entity))));
        r \<leftarrow> rotation_add_loop r;
        (case r of Finite x \<Rightarrow> Some (entity\<lparr>rotation := x\<rparr>) | _ \<Rightarrow> None)
      })"

text \<open>The value of \<^verbatim>\<open>2*M_PI\<close>, which is exact in binary64.\<close>

definition two_pi :: real where
  "two_pi = 884279719003555 / 140737488355328"

section \<open>VectorMath: division\<close>

text \<open>
  Modules \<^verbatim>\<open>part_001\<close> and \<^verbatim>\<open>part_003\<close>, which agree on everything in this section.
  The C structs \<^verbatim>\<open>Vec2\<close>, \<^verbatim>\<open>Vec3\<close>, \<^verbatim>\<open>Vec4\<close> are tuples. \<^verbatim>\<open>vec2_div\<close>, \<^verbatim>\<open>vec3_div\<close>
  and \<^verbatim>\<open>vec4_div\<close> test \<^verbatim>\<open>scalar == 0\<close> and fill the result with zeros in that case.
\<close>

type_synonym Vec2 = "real \<times> real"
type_synonym Vec3 = "real \<times> real \<times> real"
type_synonym Vec4 = "real \<times> real \<times> real \<times> real"

fun vec2_div :: "Vec2 \<Rightarrow> real \<Rightarrow> Vec2" where
  "vec2_div (x, y) scalar =
     (if scalar = 0 then (0, 0) else (x / scalar, y / scalar))"

fun vec3_div :: "Vec3 \<Rightarrow> real \<Rightarrow> Vec3" where
  "vec3_div (x, y, z) scalar =
     (if scalar = 0 then (0, 0, 0) else (x / scalar, y / scalar, z / scalar))"

fun vec4_div :: "Vec4 \<Rightarrow> real \<Rightarrow> Vec4" where
  "vec4_div (x, y, z, w) scalar =
     (if scalar = 0 then (0, 0, 0, 0)
      else (x / scalar, y / scalar, z / scalar, w / scalar))"

text \<open>
  The operators of the classes. \<^verbatim>\<open>Vector2.__truediv__\<close> takes a \<^verbatim>\<open>double\<close>.
  \<^verbatim>\<open>Vector3.__truediv__\<close> and \<^verbatim>\<open>Vector4.__truediv__\<close> look at the run-time type of their
  argument: a number (\<open>Scalar\<close>) or a vector of the same class (\<open>Same\<close>); for any other
  type they return \<^verbatim>\<open>NotImplemented\<close>, which the type \<open>operand\<close> excludes. All three
  raise \<^verbatim>\<open>ZeroDivisionError("Division by zero")\<close> when the number is zero.
\<close>

datatype 'a operand = Scalar real | Same 'a

definition Vector2_truediv :: "Vector2 \<Rightarrow> real \<Rightarrow> error + Vector2" where
  "Vector2_truediv self scalar =
     (if scalar = 0 then Inl ZeroDivisionError
      else Inr \<lparr>x_v2 = x_v2 self / scalar, y_v2 = y_v2 self / scalar\<rparr>)"

fun Vector3_truediv :: "Vector3 \<Rightarrow> Vector3 operand \<Rightarrow> error + Vector3" where
  "Vector3_truediv self (Scalar val) =
     (if val = 0 then Inl ZeroDivisionError
      else Inr \<lparr>x_v3 = x_v3 self / val, y_v3 = y_v3 self / val, z_v3 = z_v3 self / val\<rparr>)"
| "Vector3_truediv self (Same val) =
     Inr \<lparr>x_v3 = (if x_v3 val \<noteq> 0 then x_v3 self / x_v3 val else 0),
          y_v3 = (if y_v3 val \<noteq> 0 then y_v3 self / y_v3 val else 0),
          z_v3 = (if z_v3 val \<noteq> 0 then z_v3 self / z_v3 val else 0)\<rparr>"

fun Vector4_truediv :: "Vector4 \<Rightarrow> Vector4 operand \<Rightarrow> error + Vector4" where
  "Vector4_truediv self (Scalar val) =
     (if val = 0 then Inl ZeroDivisionError
      else Inr \<lparr>x_v4 = x_v4 self / val, y_v4 = y_v4 self / val,
                z_v4 = z_v4 self / val, w_v4 = w_v4 self / val\<rparr>)"
| "Vector4_truediv self (Same val) =
     Inr \<lparr>x_v4 = (if x_v4 val \<noteq> 0 then x_v4 self / x_v4 val else 0),
          y_v4 = (if y_v4 val \<noteq> 0 then y_v4 self / y_v4 val else 0),
          z_v4 = (if z_v4 val \<noteq> 0 then z_v4 self / z_v4 val else 0),
          w_v4 = (if w_v4 val \<noteq> 0 then w_v4 self / w_v4 val else 0)\<rparr>"

section \<open>VectorMath: inverse square root\<close>









section \<open>VectorMath: length and normalize\<close>













section \<open>CollisionSystem\<close>

text \<open>
  \<^verbatim>\<open>_handle_collision(entity1, entity2, response_coef)\<close> of \<^verbatim>\<open>collision.pyx\<close> mutates
  both entities; the model returns the pair after the call. The two arguments are
  distinct objects (\<^verbatim>\<open>resolve_collisions\<close> passes list positions \<open>i < j\<close>).
\<close>

definition handle_collision :: "Entity \<Rightarrow> Entity \<Rightarrow> real \<Rightarrow> Entity \<times> Entity" where
  "handle_collision entity1 entity2 response_coef =
     (let dx = x_ent entity2 - x_ent entity1;
          dy = y_ent entity2 - y_ent entity1;
          distance_sq = dx * dx + dy * dy
      in
      if distance_sq < 0.0001 then
        (entity1\<lparr>x_ent := x_ent entity1 - 0.1\<rparr>, entity2\<lparr>x_ent := x_ent entity2 + 0.1\<rparr>)
      else
        let distance = sqrt distance_sq;
            overlap = radius entity1 + radius entity2 - distance;
            nx = dx / distance;
            ny = dy / distance
        in
        if mass entity1 > 0 \<and> mass entity2 > 0 then
          let total_mass = mass entity1 + mass entity2;
              entity1_ratio = mass entity2 / total_mass;
              entity2_ratio = mass entity1 / total_mass;
              entity1 = entity1\<lparr>x_ent := x_ent entity1 - nx * overlap * entity1_ratio\<rparr>;
              entity1 = entity1\<lparr>y_ent := y_ent entity1 - ny * overlap * entity1_ratio\<rparr>;
              entity2 = entity2\<lparr>x_ent := x_ent entity2 + nx * overlap * entity2_ratio\<rparr>;
              entity2 = entity2\<lparr>y_ent := y_ent entity2 + ny * overlap * entity2_ratio\<rparr>;
              rvx = vx entity2 - vx entity1;
              rvy = vy entity2 - vy entity1;
              vel_along_normal = rvx * nx + rvy * ny
          in
          if vel_along_normal > 0 then (entity1, entity2)
          else
            let impulse_scalar = - (1 + response_coef) * vel_along_normal;
                impulse_scalar = impulse_scalar / ((1 / mass entity1) + (1 / mass entity2));
                impulse_x = impulse_scalar * nx;
                impulse_y = impulse_scalar * ny;
                entity1 = entity1\<lparr>vx := vx entity1 - impulse_x / mass entity1\<rparr>;
                entity1 = entity1\<lparr>vy := vy entity1 - impulse_y / mass entity1\<rparr>;
                entity2 = entity2\<lparr>vx := vx entity2 + impulse_x / mass entity2\<rparr>;
                entity2 = entity2\<lparr>vy := vy entity2 + impulse_y / mass entity2\<rparr>
            in (entity1, entity2)
        else if mass entity1 > 0 then
          let entity1 = entity1\<lparr>x_ent := x_ent entity1 - nx * overlap\<rparr>;
              entity1 = entity1\<lparr>y_ent := y_ent entity1 - ny * overlap\<rparr>;
              dot = vx entity1 * nx + vy entity1 * ny;
              entity1 = entity1\<lparr>vx := response_coef * (vx entity1 - 2 * dot * nx)\<rparr>;
              entity1 = entity1\<lparr>vy := response_coef * (vy entity1 - 2 * dot * ny)\<rparr>
          in (entity1, entity2)
        else if mass entity2 > 0 then
          let entity2 = entity2\<lparr>x_ent := x_ent entity2 + nx * overlap\<rparr>;
              entity2 = entity2\<lparr>y_ent := y_ent entity2 + ny * overlap\<rparr>;
              dot = vx entity2 * nx + vy entity2 * ny;
              entity2 = entity2\<lparr>vx := response_coef * (vx entity2 - 2 * dot * nx)\<rparr>;
              entity2 = entity2\<lparr>vy := response_coef * (vy entity2 - 2 * dot * ny)\<rparr>
          in (entity1, entity2)
        else (entity1, entity2))"

text \<open>
  \<^verbatim>\<open>resolve_collisions(entities, response_coef)\<close>. \<open>resolve_pair\<close> is the body of the
  inner loop for one \<open>j\<close>, \<open>resolve_row\<close> the body of the outer loop for one \<open>i\<close>. The
  list is the state: position \<open>i\<close> holds the entity object \<^verbatim>\<open>entities[i]\<close> as it is
  now. The objects of the list are taken to be pairwise distinct.
\<close>

definition resolve_pair :: "nat \<Rightarrow> nat \<Rightarrow> real \<Rightarrow> Entity list \<Rightarrow> Entity list" where
  "resolve_pair i j response_coef entities =
     (let entity1 = entities ! i;
          entity2 = entities ! j
      in
      if \<not> active entity2 then entities
      else
        let dx = x_ent entity2 - x_ent entity1;
            dy = y_ent entity2 - y_ent entity1;
            distance_sq = dx * dx + dy * dy;
            combined_radius = radius entity1 + radius entity2
        in
        if distance_sq > combined_radius * combined_radius then entities
        else
          (case handle_collision entity1 entity2 response_coef of
             (entity1, entity2) \<Rightarrow> entities[i := entity1, j := entity2]))"

definition resolve_row :: "nat \<Rightarrow> real \<Rightarrow> Entity list \<Rightarrow> Entity list" where
  "resolve_row i response_coef entities =
     (let n = length entities in
      if \<not> active (entities ! i) then entities
      else fold (\<lambda>j. resolve_pair i j response_coef) [i + 1..<n] entities)"

definition resolve_collisions :: "Entity list \<Rightarrow> real \<Rightarrow> Entity list" where
  "resolve_collisions entities response_coef =
     (let n = length entities in
      fold (\<lambda>i. resolve_row i response_coef) [0..<n] entities)"

section \<open>Matrix4\<close>

text \<open>
  \<^verbatim>\<open>cdef public double[16] data\<close>: sixteen cells in row-major order, a list of length
  16 here. \<^verbatim>\<open>Matrix4()\<close> is the identity matrix. The names of \<^verbatim>\<open>enum MatrixIndex\<close> are
  the list positions.
\<close>

record Matrix4 =
  data :: "real list"

definition Matrix4_init :: Matrix4 where
  "Matrix4_init = \<lparr>data = [1.0, 0.0, 0.0, 0.0,
                           0.0, 1.0, 0.0, 0.0,
                           0.0, 0.0, 1.0, 0.0,
                           0.0, 0.0, 0.0, 1.0]\<rparr>"

definition M00 :: nat where [simp]: "M00 = 0"
definition M01 :: nat where [simp]: "M01 = 1"
definition M02 :: nat where [simp]: "M02 = 2"
definition M03 :: nat where [simp]: "M03 = 3"
definition M10 :: nat where [simp]: "M10 = 4"
definition M11 :: nat where [simp]: "M11 = 5"
definition M12 :: nat where [simp]: "M12 = 6"
definition M13 :: nat where [simp]: "M13 = 7"
definition M20 :: nat where [simp]: "M20 = 8"
definition M21 :: nat where [simp]: "M21 = 9"
definition M22 :: nat where [simp]: "M22 = 10"
definition M23 :: nat where [simp]: "M23 = 11"
definition M30 :: nat where [simp]: "M30 = 12"
definition M31 :: nat where [simp]: "M31 = 13"
definition M32 :: nat where [simp]: "M32 = 14"
definition M33 :: nat where [simp]: "M33 = 15"





text \<open>\<^verbatim>\<open>Matrix4.determinant\<close>: the four cofactors of the first row.\<close>

definition Matrix4_determinant :: "Matrix4 \<Rightarrow> real" where
  "Matrix4_determinant self =
     (let d = data self;
          cofactor00 = (
            d ! M11 * (d ! M22 * d ! M33 - d ! M23 * d ! M32) -
            d ! M12 * (d ! M21 * d ! M33 - d ! M23 * d ! M31) +
            d ! M13 * (d ! M21 * d ! M32 - d ! M22 * d ! M31));
          cofactor01 = (
            d ! M10 * (d ! M22 * d ! M33 - d ! M23 * d ! M32) -
            d ! M12 * (d ! M20 * d ! M33 - d ! M23 * d ! M30) +
            d ! M13 * (d ! M20 * d ! M32 - d ! M22 * d ! M30));
          cofactor02 = (
            d ! M10 * (d ! M21 * d ! M33 - d ! M23 * d ! M31) -
            d ! M11 * (d ! M20 * d ! M33 - d ! M23 * d ! M30) +
            d ! M13 * (d ! M20 * d ! M31 - d ! M21 * d ! M30));
          cofactor03 = (
            d ! M10 * (d ! M21 * d ! M32 - d ! M22 * d ! M31) -
            d ! M11 * (d ! M20 * d ! M32 - d ! M22 * d ! M30) +
            d ! M12 * (d ! M20 * d ! M31 - d ! M21 * d ! M30))
      in
        d ! M00 * cofactor00 -
        d ! M01 * cofactor01 +
        d ! M02 * cofactor02 -
        d ! M03 * cofactor03)"

text \<open>
  \<^verbatim>\<open>Matrix4.inverse\<close>: raises \<^verbatim>\<open>ValueError\<close> when \<^verbatim>\<open>abs(det) < 1e-10\<close>, and otherwise
  writes the sixteen cells of the adjugate times \<^verbatim>\<open>1.0 / det\<close> into a fresh matrix.
\<close>

definition Matrix4_inverse :: "Matrix4 \<Rightarrow> error + Matrix4" where
  "Matrix4_inverse self =
     (let det = Matrix4_determinant self in
      if \<bar>det\<bar> < 1 / 10 ^ 10 then Inl ValueError
      else
        let inv_det = 1.0 / det;
            d = data self;
            result = data Matrix4_init;
          result = result[M00 := inv_det * (
            d ! M11 * (d ! M22 * d ! M33 - d ! M23 * d ! M32)
            - d ! M12 * (d ! M21 * d ! M33 - d ! M23 * d ! M31)
            + d ! M13 * (d ! M21 * d ! M32 - d ! M22 * d ! M31))];
          result = result[M01 := -inv_det * (
            d ! M01 * (d ! M22 * d ! M33 - d ! M23 * d ! M32)
            - d ! M02 * (d ! M21 * d ! M33 - d ! M23 * d ! M31)
            + d ! M03 * (d ! M21 * d ! M32 - d ! M22 * d ! M31))];
          result = result[M02 := inv_det * (
            d ! M01 * (d ! M12 * d ! M33 - d ! M13 * d ! M32)
            - d ! M02 * (d ! M11 * d ! M33 - d ! M13 * d ! M31)
            + d ! M03 * (d ! M11 * d ! M32 - d ! M12 * d ! M31))];
          result = result[M03 := -inv_det * (
            d ! M01 * (d ! M12 * d ! M23 - d ! M13 * d ! M22)
            - d ! M02 * (d ! M11 * d ! M23 - d ! M13 * d ! M21)
            + d ! M03 * (d ! M11 * d ! M22 - d ! M12 * d ! M21))];
          result = result[M10 := -inv_det * (
            d ! M10 * (d ! M22 * d ! M33 - d ! M23 * d ! M32)
            - d ! M12 * (d ! M20 * d ! M33 - d ! M23 * d ! M30)
            + d ! M13 * (d ! M20 * d ! M32 - d ! M22 * d ! M30))];
          result = result[M11 := inv_det * (
            d ! M00 * (d ! M22 * d ! M33 - d ! M23 * d ! M32)
            - d ! M02 * (d ! M20 * d ! M33 - d ! M23 * d ! M30)
            + d ! M03 * (d ! M20 * d ! M32 - d ! M22 * d ! M30))];
          result = result[M12 := -inv_det * (
            d ! M00 * (d ! M12 * d ! M33 - d ! M13 * d ! M32)
            - d ! M02 * (d ! M10 * d ! M33 - d ! M13 * d ! M30)
            + d ! M03 * (d ! M10 * d ! M32 - d ! M12 * d ! M30))];
          result = result[M13 := inv_det * (
            d ! M00 * (d ! M12 * d ! M23 - d ! M13 * d ! M22)
            - d ! M02 * (d ! M10 * d ! M23 - d ! M13 * d ! M20)
            + d ! M03 * (d ! M10 * d ! M22 - d ! M12 * d ! M20))];
          result = result[M20 := inv_det * (
            d ! M10 * (d ! M21 * d ! M33 - d ! M23 * d ! M31)
            - d ! M11 * (d ! M20 * d ! M33 - d ! M23 * d ! M30)
            + d ! M13 * (d ! M20 * d ! M31 - d ! M21 * d ! M30))];
          result = result[M21 := -inv_det * (
            d ! M00 * (d ! M21 * d ! M33 - d ! M23 * d ! M31)
            - d ! M01 * (d ! M20 * d ! M33 - d ! M23 * d ! M30)
            + d ! M03 * (d ! M20 * d ! M31 - d ! M21 * d ! M30))];
          result = result[M22 := inv_det * (
            d ! M00 * (d ! M11 * d ! M33 - d ! M13 * d ! M31)
            - d ! M01 * (d ! M10 * d ! M33 - d ! M13 * d ! M30)
            + d ! M03 * (d ! M10 * d ! M31 - d ! M11 * d ! M30))];
          result = result[M23 := -inv_det * (
            d ! M00 * (d ! M11 * d ! M23 - d ! M13 * d ! M21)
            - d ! M01 * (d ! M10 * d ! M23 - d ! M13 * d ! M20)
            + d ! M03 * (d ! M10 * d ! M21 - d ! M11 * d ! M20))];
          result = result[M30 := -inv_det * (
            d ! M10 * (d ! M21 * d ! M32 - d ! M22 * d ! M31)
            - d ! M11 * (d ! M20 * d ! M32 - d ! M22 * d ! M30)
            + d ! M12 * (d ! M20 * d ! M31 - d ! M21 * d ! M30))];
          result = result[M31 := inv_det * (
            d ! M00 * (d ! M21 * d ! M32 - d ! M22 * d ! M31)
            - d ! M01 * (d ! M20 * d ! M32 - d ! M22 * d ! M30)
            + d ! M02 * (d ! M20 * d ! M31 - d ! M21 * d ! M30))];
          result = result[M32 := -inv_det * (
            d ! M00 * (d ! M11 * d ! M32 - d ! M12 * d ! M31)
            - d ! M01 * (d ! M10 * d ! M32 - d ! M12 * d ! M30)
            + d ! M02 * (d ! M10 * d ! M31 - d ! M11 * d ! M30))];
          result = result[M33 := inv_det * (
            d ! M00 * (d ! M11 * d ! M22 - d ! M12 * d ! M21)
            - d ! M01 * (d ! M10 * d ! M22 - d ! M12 * d ! M20)
            + d ! M02 * (d ! M10 * d ! M21 - d ! M11 * d ! M20))]
        in Inr \<lparr>data = result\<rparr>)"

section \<open>Notions of the spec used to state the collision properties\<close>

text \<open>
  The squared distance between the centres of two entities, as \<^verbatim>\<open>check_collision\<close>,
  \<^verbatim>\<open>resolve_collisions\<close> and \<^verbatim>\<open>_handle_collision\<close> each compute it.
\<close>

definition distance_sq_of :: "Entity \<Rightarrow> Entity \<Rightarrow> real" where
  "distance_sq_of e1 e2 =
     (x_ent e2 - x_ent e1) * (x_ent e2 - x_ent e1)
       + (y_ent e2 - y_ent e1) * (y_ent e2 - y_ent e1)"


definition spec_normal :: "Entity \<Rightarrow> Entity \<Rightarrow> real \<times> real" where
  "spec_normal e1 e2 =
     (let distance = sqrt ((x_ent e2 - x_ent e1) * (x_ent e2 - x_ent e1)
                            + (y_ent e2 - y_ent e1) * (y_ent e2 - y_ent e1))
      in ((x_ent e2 - x_ent e1) / distance, (y_ent e2 - y_ent e1) / distance))"



definition static_B :: Entity where
  "static_B = Entity_init\<lparr>mass := 0, radius := 1\<rparr>"

definition head_on_A :: Entity where
  "head_on_A = Entity_init\<lparr>vx := 1, radius := 1\<rparr>"

definition head_on_B :: Entity where
  "head_on_B = Entity_init\<lparr>x_ent := 1.5, vx := - 1, radius := 1\<rparr>"

section \<open>Notions of the spec used to state the matrix properties\<close>

text \<open>
  The adjugate of the spec (``inverse (adjugate \<open>\<div>\<close> determinant)''): the sixteen
  bracketed expressions of \<^verbatim>\<open>Matrix4.inverse\<close>, each with the sign of its factor
  \<^verbatim>\<open>inv_det\<close> or \<^verbatim>\<open>-inv_det\<close>, without that factor.
\<close>

definition adjugate :: "real list \<Rightarrow> real list" where
  "adjugate d =
     [
      (d ! M11 * (d ! M22 * d ! M33 - d ! M23 * d ! M32)
         - d ! M12 * (d ! M21 * d ! M33 - d ! M23 * d ! M31)
         + d ! M13 * (d ! M21 * d ! M32 - d ! M22 * d ! M31)),
      - (d ! M01 * (d ! M22 * d ! M33 - d ! M23 * d ! M32)
           - d ! M02 * (d ! M21 * d ! M33 - d ! M23 * d ! M31)
           + d ! M03 * (d ! M21 * d ! M32 - d ! M22 * d ! M31)),
      (d ! M01 * (d ! M12 * d ! M33 - d ! M13 * d ! M32)
         - d ! M02 * (d ! M11 * d ! M33 - d ! M13 * d ! M31)
         + d ! M03 * (d ! M11 * d ! M32 - d ! M12 * d ! M31)),
      - (d ! M01 * (d ! M12 * d ! M23 - d ! M13 * d ! M22)
           - d ! M02 * (d ! M11 * d ! M23 - d ! M13 * d ! M21)
           + d ! M03 * (d ! M11 * d ! M22 - d ! M12 * d ! M21)),
      - (d ! M10 * (d ! M22 * d ! M33 - d ! M23 * d ! M32)
           - d ! M12 * (d ! M20 * d ! M33 - d ! M23 * d ! M30)
           + d ! M13 * (d ! M20 * d ! M32 - d ! M22 * d ! M30)),
      (d ! M00 * (d ! M22 * d ! M33 - d ! M23 * d ! M32)
         - d ! M02 * (d ! M20 * d ! M33 - d ! M23 * d ! M30)
         + d ! M03 * (d ! M20 * d ! M32 - d ! M22 * d ! M30)),
      - (d ! M00 * (d ! M12 * d ! M33 - d ! M13 * d ! M32)
           - d ! M02 * (d ! M10 * d ! M33 - d ! M13 * d ! M30)
           + d ! M03 * (d ! M10 * d ! M32 - d ! M12 * d ! M30)),
      (d ! M00 * (d ! M12 * d ! M23 - d ! M13 * d ! M22)
         - d ! M02 * (d ! M10 * d ! M23 - d ! M13 * d ! M20)
         + d ! M03 * (d ! M10 * d ! M22 - d ! M12 * d ! M20)),
      (d ! M10 * (d ! M21 * d ! M33 - d ! M23 * d ! M31)
         - d ! M11 * (d ! M20 * d ! M33 - d ! M23 * d ! M30)
         + d ! M13 * (d ! M20 * d ! M31 - d ! M21 * d ! M30)),
      - (d ! M00 * (d ! M21 * d ! M33 - d ! M23 * d ! M31)
           - d ! M01 * (d ! M20 * d ! M33 - d ! M23 * d ! M30)
           + d ! M03 * (d ! M20 * d ! M31 - d ! M21 * d ! M30)),
      (d ! M00 * (d ! M11 * d ! M33 - d ! M13 * d ! M31)
         - d ! M01 * (d ! M10 * d ! M33 - d ! M13 * d ! M30)
         + d ! M03 * (d ! M10 * d ! M31 - d ! M11 * d ! M30)),
      - (d ! M00 * (d ! M11 * d ! M23 - d ! M13 * d ! M21)
           - d ! M01 * (d ! M10 * d ! M23 - d ! M13 * d ! M20)
           + d ! M03 * (d ! M10 * d ! M21 - d ! M11 * d ! M20)),
      - (d ! M10 * (d ! M21 * d ! M32 - d ! M22 * d ! M31)
           - d ! M11 * (d ! M20 * d ! M32 - d ! M22 * d ! M30)
           + d ! M12 * (d ! M20 * d ! M31 - d ! M21 * d ! M30)),
      (d ! M00 * (d ! M21 * d ! M32 - d ! M22 * d ! M31)
         - d ! M01 * (d ! M20 * d ! M32 - d ! M22 * d ! M30)
         + d ! M02 * (d ! M20 * d ! M31 - d ! M21 * d ! M30)),
      - (d ! M00 * (d ! M11 * d ! M32 - d ! M12 * d ! M31)
           - d ! M01 * (d ! M10 * d ! M32 - d ! M12 * d ! M30)
           + d ! M02 * (d ! M10 * d ! M31 - d ! M11 * d ! M30)),
      (d ! M00 * (d ! M11 * d ! M22 - d ! M12 * d ! M21)
         - d ! M01 * (d ! M10 * d ! M22 - d ! M12 * d ! M20)
         + d ! M02 * (d ! M10 * d ! M21 - d ! M11 * d ! M20))]"

text \<open>Two matrices to run the inverse on: one with two proportional rows, one of determinant 2.\<close>

definition singular_example :: Matrix4 where
  "singular_example = \<lparr>data = [1, 2, 3, 4,  2, 4, 6, 8,  0, 0, 1, 0,  0, 0, 0, 1]\<rparr>"

definition shear_example :: Matrix4 where
  "shear_example = \<lparr>data = [2, 0, 0, 1,  0, 1, 3, 0,  0, 0, 1, 0,  0, 0, 0, 1]\<rparr>"

section \<open>Binary64 arithmetic: the rounding\<close>

text \<open>
  \<open>binade x\<close> is the exponent of \<open>x\<close>: \<open>2\<^sup>e \<le> |x| < 2\<^sup>e\<^sup>+\<^sup>1\<close> holds for \<open>e = binade x\<close> and for
  no other \<open>e\<close>.
\<close>

lemma binade_bounds:
  assumes "x \<noteq> 0"
  shows "2 powi binade x \<le> \<bar>x\<bar> \<and> \<bar>x\<bar> < 2 powi (binade x + 1)"
proof (cases "1 \<le> \<bar>x\<bar>")
  case True
  define n where "n = \<lfloor>\<bar>x\<bar>\<rfloor>"
  have n1: "1 \<le> n" using True by (simp add: n_def le_floor_iff)
  then have n0: "0 < n" by simp
  define k where "k = bitlen n - 1"
  have b1: "1 \<le> bitlen n" using n0 by (simp add: bitlen_alt_def)
  then have k0: "0 \<le> k" by (simp add: k_def)
  have bk: "binade x = k" using True by (simp add: binade_def n_def k_def)
  from bitlen_bounds [OF n0] have lo: "2 ^ nat k \<le> n" and hi: "n < 2 ^ nat (bitlen n)"
    by (simp_all add: k_def)
  have "nat (bitlen n) = Suc (nat k)" using k0 by (simp add: k_def)
  then have hi': "n + 1 \<le> 2 ^ Suc (nat k)" using hi by simp
  have "(of_int (2 ^ nat k) :: real) \<le> of_int n" using lo by (simp only: of_int_le_iff)
  also have "\<dots> \<le> \<bar>x\<bar>" by (simp add: n_def)
  finally have 1: "(2::real) ^ nat k \<le> \<bar>x\<bar>" by simp
  have "\<bar>x\<bar> < of_int n + 1" by (simp add: n_def)
  also have "\<dots> = of_int (n + 1)" by simp
  also have "\<dots> \<le> (of_int (2 ^ Suc (nat k)) :: real)" using hi' by (simp only: of_int_le_iff)
  finally have 2: "\<bar>x\<bar> < (2::real) ^ Suc (nat k)" by simp
  have p1: "(2::real) powi k = 2 ^ nat k" using k0 by (simp add: power_int_def)
  have p2: "(2::real) powi (k + 1) = 2 ^ Suc (nat k)"
    using k0 by (simp add: power_int_def nat_add_distrib)
  show ?thesis unfolding bk p1 p2 using 1 2 by simp
next
  case False
  then have lt: "\<bar>x\<bar> < 1" by simp
  have pos: "0 < \<bar>x\<bar>" using assms by simp
  define z where "z = 1 / \<bar>x\<bar>"
  have z1: "1 < z" using lt pos by (simp add: z_def)
  define m where "m = \<lceil>z\<rceil> - 1"
  have "1 < \<lceil>z\<rceil>" using z1 by (simp add: less_ceiling_iff)
  then have m0: "0 < m" by (simp add: m_def)
  define b where "b = bitlen m"
  have b1: "1 \<le> b" using m0 by (simp add: b_def bitlen_alt_def)
  have bk: "binade x = - b" using False by (simp add: binade_def b_def m_def z_def)
  from bitlen_bounds [OF m0] have lo: "2 ^ nat (b - 1) \<le> m" and hi: "m < 2 ^ nat b"
    by (simp_all add: b_def)
  have "z \<le> of_int \<lceil>z\<rceil>" by simp
  also have "\<dots> = of_int (m + 1)" by (simp add: m_def)
  also have "\<dots> \<le> (of_int (2 ^ nat b) :: real)" using hi by (simp only: of_int_le_iff)
  finally have zle: "z \<le> 2 ^ nat b" by simp
  have "(of_int (2 ^ nat (b - 1)) :: real) \<le> of_int m" using lo by (simp only: of_int_le_iff)
  also have "\<dots> < z" by (simp add: m_def) linarith
  finally have zgt: "2 ^ nat (b - 1) < z" by simp
  have p1: "(2::real) powi (- b) = 1 / 2 ^ nat b"
    using b1 by (simp add: power_int_def field_simps)
  have p2: "(2::real) powi (- b + 1) = 1 / 2 ^ nat (b - 1)"
    using b1 by (cases "b = 1") (simp_all add: power_int_def field_simps)
  have 1: "1 / 2 ^ nat b \<le> \<bar>x\<bar>"
    using zle pos by (simp add: z_def field_simps)
  have 2: "\<bar>x\<bar> < 1 / 2 ^ nat (b - 1)"
    using zgt pos by (simp add: z_def field_simps)
  show ?thesis unfolding bk p1 p2 using 1 2 by simp
qed

lemma pow2_less_cancel:
  assumes "(2::real) powi a < 2 powi b"
  shows "a < b"
proof (rule ccontr)
  assume "\<not> a < b"
  then have "b \<le> a" by simp
  then have "(2::real) powi b \<le> 2 powi a" by (rule power_int_increasing) simp
  with assms show False by simp
qed

lemma binade_unique:
  assumes "2 powi k \<le> \<bar>x\<bar>" "\<bar>x\<bar> < 2 powi (k + 1)"
  shows "binade x = k"
proof -
  have "(0::real) < 2 powi k" by simp
  with assms(1) have "0 < \<bar>x\<bar>" by linarith
  then have nz: "x \<noteq> 0" by simp
  from binade_bounds [OF nz] have b: "2 powi binade x \<le> \<bar>x\<bar>" "\<bar>x\<bar> < 2 powi (binade x + 1)"
    by simp_all
  have "(2::real) powi k < 2 powi (binade x + 1)" using assms(1) b(2) by linarith
  then have 1: "k < binade x + 1" by (rule pow2_less_cancel)
  have "(2::real) powi binade x < 2 powi (k + 1)" using assms(2) b(1) by linarith
  then have 2: "binade x < k + 1" by (rule pow2_less_cancel)
  from 1 2 show ?thesis by simp
qed

text \<open>
  Rounding to the nearest integer, ties to even: off by at most a half, monotone, the
  identity on the integers and odd.
\<close>

lemma round_even_error: "\<bar>of_int (round_even q) - q\<bar> \<le> 1 / 2"
  unfolding round_even_def Let_def by (auto simp: abs_le_iff)

lemma round_even_of_int [simp]: "round_even (of_int n) = n"
  by (simp add: round_even_def)

lemma round_even_mono:
  assumes "q \<le> r"
  shows "round_even q \<le> round_even r"
proof (cases "\<lfloor>q\<rfloor> = \<lfloor>r\<rfloor>")
  case True
  then show ?thesis using assms
    unfolding round_even_def Let_def by auto
next
  case False
  have "\<lfloor>q\<rfloor> \<le> \<lfloor>r\<rfloor>" using assms by (rule floor_mono)
  with False have "\<lfloor>q\<rfloor> + 1 \<le> \<lfloor>r\<rfloor>" by simp
  moreover have "round_even q \<le> \<lfloor>q\<rfloor> + 1" unfolding round_even_def Let_def by auto
  moreover have "\<lfloor>r\<rfloor> \<le> round_even r" unfolding round_even_def Let_def by auto
  ultimately show ?thesis by linarith
qed

lemma round_even_minus: "round_even (- q) = - round_even q"
proof (cases "q = of_int \<lfloor>q\<rfloor>")
  case True
  then obtain n where "q = of_int n" ..
  then have "- q = of_int (- n)" by simp
  then show ?thesis unfolding \<open>q = of_int n\<close> by (simp only: round_even_of_int)
next
  case False
  then have f: "\<lfloor>- q\<rfloor> = - \<lfloor>q\<rfloor> - 1"
    by (metis ceiling_altdef ceiling_def floor_minus add_diff_cancel_left' diff_minus_eq_add minus_diff_eq uminus_add_conv_diff)
  show ?thesis unfolding round_even_def Let_def f by auto
qed


lemma binade_minus [simp]: "binade (- x) = binade x"
  by (simp add: binade_def)

lemma binade_zero [simp]: "binade 0 = 0"
  by (simp add: binade_def bitlen_alt_def)

lemma binade_mono:
  assumes "0 < x" "x \<le> y"
  shows "binade x \<le> binade y"
proof -
  have nz: "x \<noteq> 0" "y \<noteq> 0" using assms by simp_all
  from binade_bounds [OF nz(1)] binade_bounds [OF nz(2)] assms
  have "(2::real) powi binade x < 2 powi (binade y + 1)" by simp
  then have "binade x < binade y + 1" by (rule pow2_less_cancel)
  then show ?thesis by simp
qed

lemma binade_ge:
  assumes "2 powi k \<le> \<bar>x\<bar>"
  shows "k \<le> binade x"
proof -
  have "(0::real) < 2 powi k" by simp
  with assms have "0 < \<bar>x\<bar>" by linarith
  then have nz: "x \<noteq> 0" by simp
  from binade_bounds [OF nz] assms have "(2::real) powi k < 2 powi (binade x + 1)" by simp
  then have "k < binade x + 1" by (rule pow2_less_cancel)
  then show ?thesis by simp
qed

lemma binade_less:
  assumes "\<bar>x\<bar> < 2 powi k" "x \<noteq> 0"
  shows "binade x < k"
proof -
  from binade_bounds [OF assms(2)] assms(1) have "(2::real) powi binade x < 2 powi k" by simp
  then show ?thesis by (rule pow2_less_cancel)
qed

text \<open>
  \<open>fl\<close> is odd, keeps the sign, and is off by at most half an \<open>ulp\<close>: by at most
  \<open>|x| / 2\<^sup>5\<^sup>3\<close> in the normal range and by at most \<open>2\<^sup>-\<^sup>1\<^sup>0\<^sup>7\<^sup>5\<close> below it.
\<close>

lemma ulp_pos [simp]: "0 < ulp x"
  by (simp add: ulp_def)

lemma ulp_nonneg [simp]: "0 \<le> ulp x"
  by (simp add: ulp_def)

lemma ulp_neq [simp]: "ulp x \<noteq> 0"
  using ulp_pos [of x] by linarith

lemma ulp_minus [simp]: "ulp (- x) = ulp x"
  by (simp add: ulp_def)

lemma fl_minus: "fl (- x) = - fl x"
  by (simp add: fl_def round_even_minus)

lemma fl_zero [simp]: "fl 0 = 0"
  by (simp add: fl_def round_even_def)

lemma fl_nonneg:
  assumes "0 \<le> x"
  shows "0 \<le> fl x"
proof -
  have "0 \<le> x / ulp x" using assms by (intro divide_nonneg_pos ulp_pos)
  then have "round_even 0 \<le> round_even (x / ulp x)" by (rule round_even_mono)
  then have "0 \<le> round_even (x / ulp x)" by (simp add: round_even_def)
  then have "0 \<le> (of_int (round_even (x / ulp x)) :: real)" by simp
  then show ?thesis unfolding fl_def
    by (rule mult_nonneg_nonneg) (simp add: less_imp_le)
qed

lemma fl_error_ulp: "\<bar>fl x - x\<bar> \<le> ulp x / 2"
proof -
  have "fl x - x = (of_int (round_even (x / ulp x)) - x / ulp x) * ulp x"
    using ulp_pos [of x] by (simp add: fl_def left_diff_distrib)
  then have "\<bar>fl x - x\<bar> = \<bar>of_int (round_even (x / ulp x)) - x / ulp x\<bar> * ulp x"
    by (simp add: abs_mult)
  also have "\<dots> \<le> 1 / 2 * ulp x"
    by (rule mult_right_mono [OF round_even_error]) simp
  finally show ?thesis by simp
qed

lemma ulp_normal:
  assumes "1 / 2 ^ 1022 \<le> \<bar>x\<bar>"
  shows "ulp x \<le> \<bar>x\<bar> / 2 ^ 52"
proof -
  have "(2::real) powi (- 1022) = 1 / 2 ^ 1022" by (simp add: power_int_minus_divide)
  with assms have "(2::real) powi (- 1022) \<le> \<bar>x\<bar>" by simp
  then have b: "- 1022 \<le> binade x" by (rule binade_ge)
  have "(0::real) < 1 / 2 ^ 1022" by simp
  with assms have "0 < \<bar>x\<bar>" by linarith
  then have nz: "x \<noteq> 0" by simp
  have "ulp x = 2 powi (binade x - 52)" using b by (simp add: ulp_def max_def)
  also have "\<dots> = 2 powi binade x / 2 ^ 52" by (simp add: power_int_diff)
  also have "\<dots> \<le> \<bar>x\<bar> / 2 ^ 52"
    using binade_bounds [OF nz] by (simp add: divide_right_mono)
  finally show ?thesis .
qed

lemma ulp_subnormal:
  assumes "\<bar>x\<bar> < 1 / 2 ^ 1022" and False: "x \<noteq> 0"
  shows "ulp x = 1 / 2 ^ 1074"
proof -
  have "(2::real) powi (- 1022) = 1 / 2 ^ 1022" by (simp add: power_int_minus_divide)
  with assms have "\<bar>x\<bar> < 2 powi (- 1022)" by simp
  then have "binade x < - 1022" using False by (rule binade_less)
  then show ?thesis by (simp add: ulp_def max_def power_int_minus_divide)
qed

lemma fl_error_normal:
  assumes "1 / 2 ^ 1022 \<le> \<bar>x\<bar>"
  shows "\<bar>fl x - x\<bar> \<le> \<bar>x\<bar> / 2 ^ 53"
proof -
  have "\<bar>fl x - x\<bar> \<le> ulp x / 2" by (rule fl_error_ulp)
  also have "\<dots> \<le> (\<bar>x\<bar> / 2 ^ 52) / 2" using ulp_normal [OF assms] by simp
  finally show ?thesis by simp
qed

lemma fl_error:
  "\<bar>fl x - x\<bar> \<le> \<bar>x\<bar> / 2 ^ 53 + 1 / 2 ^ 1075"
proof (cases "1 / 2 ^ 1022 \<le> \<bar>x\<bar>")
  case True
  from fl_error_normal [OF this] show ?thesis
    by (rule order_trans) simp
next
  case False
  have "\<bar>fl x - x\<bar> \<le> 1 / 2 ^ 1075"
  proof (cases "x = 0")
    case True
    then show ?thesis by simp
  next
    case nz: False
    from False have "ulp x = 1 / 2 ^ 1074" using nz by (simp add: ulp_subnormal)
    with fl_error_ulp [of x] show ?thesis by simp
  qed
  then show ?thesis by (rule order_trans) simp
qed

text \<open>
  \<open>fl\<close> is monotone and leaves the powers of two as they are; so a value between two
  reals that round to the same double rounds to that double.
\<close>

lemma fl_pow2:
  assumes "- 1022 \<le> k"
  shows "fl (2 powi k) = 2 powi k"
proof -
  have "binade (2 powi k) = k"
    by (rule binade_unique) (simp_all add: power_int_strict_increasing)
  then have u: "ulp (2 powi k) = 2 powi (k - 52)" using assms by (simp add: ulp_def max_def)
  have "(2::real) powi k / 2 powi (k - 52) = 2 ^ 52"
    by (simp add: power_int_diff)
  also have "\<dots> = of_int (2 ^ 52)" by simp
  finally have q: "(2::real) powi k / 2 powi (k - 52) = of_int (2 ^ 52)" .
  show ?thesis unfolding fl_def u q round_even_of_int
    by (simp add: power_int_diff)
qed

lemma fl_upper:
  assumes "0 < x"
  shows "fl x \<le> 2 powi (max (binade x) (- 1022) + 1)"
proof -
  define e where "e = max (binade x) (- 1022)"
  have nz: "x \<noteq> 0" using assms by simp
  have u: "ulp x = 2 powi (e - 52)" by (simp add: ulp_def e_def)
  have "x < 2 powi (binade x + 1)" using binade_bounds [OF nz] assms by simp
  also have "\<dots> \<le> 2 powi (e + 1)" by (rule power_int_increasing) (simp_all add: e_def)
  finally have "x < 2 powi (e + 1)" .
  then have "x / ulp x \<le> 2 powi (e + 1) / 2 powi (e - 52)"
    unfolding u by (simp add: divide_right_mono)
  also have "(2::real) powi (e + 1) / 2 powi (e - 52) = 2 powi 53"
    by (simp add: power_int_diff [symmetric] del: power_int_numeral)
  also have "\<dots> = of_int (2 ^ 53)" by simp
  finally have "round_even (x / ulp x) \<le> round_even (of_int (2 ^ 53))" by (rule round_even_mono)
  then have "round_even (x / ulp x) \<le> 2 ^ 53" by (simp only: round_even_of_int)
  then have "(of_int (round_even (x / ulp x)) :: real) \<le> of_int (2 ^ 53)" by (simp only: of_int_le_iff)
  then have "fl x \<le> of_int (2 ^ 53) * 2 powi (e - 52)"
    unfolding fl_def u by (rule mult_right_mono) simp
  also have "\<dots> = 2 powi 53 * 2 powi (e - 52)" by simp
  also have "\<dots> = 2 powi (53 + (e - 52))"
    by (subst power_int_add) simp_all
  also have "53 + (e - 52) = e + 1" by simp
  finally show ?thesis by (simp only: e_def)
qed

lemma fl_lower:
  assumes "0 < x" "- 1022 \<le> binade x"
  shows "2 powi binade x \<le> fl x"
proof -
  define e where "e = binade x"
  have nz: "x \<noteq> 0" using assms by simp
  have u: "ulp x = 2 powi (e - 52)" using assms(2) by (simp add: ulp_def e_def max_def)
  have "(2::real) powi e \<le> x" using binade_bounds [OF nz] assms by (simp add: e_def)
  then have "2 powi e / 2 powi (e - 52) \<le> x / ulp x"
    unfolding u by (simp add: divide_right_mono)
  moreover have "(2::real) powi e / 2 powi (e - 52) = 2 powi 52"
    by (simp add: power_int_diff [symmetric] del: power_int_numeral)
  moreover have "(2::real) powi 52 = of_int (2 ^ 52)" by simp
  ultimately have "of_int (2 ^ 52) \<le> x / ulp x" by simp
  then have "round_even (of_int (2 ^ 52)) \<le> round_even (x / ulp x)" by (rule round_even_mono)
  then have "2 ^ 52 \<le> round_even (x / ulp x)" by (simp only: round_even_of_int)
  then have "(of_int (2 ^ 52) :: real) \<le> of_int (round_even (x / ulp x))" by (simp only: of_int_le_iff)
  then have "of_int (2 ^ 52) * 2 powi (e - 52) \<le> fl x"
    unfolding fl_def u by (rule mult_right_mono) simp
  moreover have "(of_int (2 ^ 52) :: real) * 2 powi (e - 52) = 2 powi 52 * 2 powi (e - 52)" by simp
  moreover have "(2::real) powi 52 * 2 powi (e - 52) = 2 powi (52 + (e - 52))"
    by (subst power_int_add) simp_all
  ultimately show ?thesis by (simp add: e_def)
qed

lemma fl_mono_pos:
  assumes "0 < x" "x \<le> y"
  shows "fl x \<le> fl y"
proof -
  define ex where "ex = max (binade x) (- 1022)"
  define ey where "ey = max (binade y) (- 1022)"
  have ypos: "0 < y" using assms by simp
  have "binade x \<le> binade y" using assms by (rule binade_mono)
  then have le: "ex \<le> ey" by (simp add: ex_def ey_def)
  show ?thesis
  proof (cases "ex = ey")
    case True
    then have u: "ulp x = ulp y" by (simp add: ulp_def ex_def ey_def)
    have "x / ulp y \<le> y / ulp y" by (rule divide_right_mono [OF assms(2) less_imp_le [OF ulp_pos]])
    then have "round_even (x / ulp y) \<le> round_even (y / ulp y)" by (rule round_even_mono)
    then have "(of_int (round_even (x / ulp y)) :: real) \<le> of_int (round_even (y / ulp y))"
      by (simp only: of_int_le_iff)
    then show ?thesis unfolding fl_def u by (rule mult_right_mono) simp
  next
    case False
    with le have lt: "ex + 1 \<le> ey" by simp
    then have "- 1022 < ey" by (simp add: ex_def)
    then have yb: "ey = binade y" "- 1022 \<le> binade y" by (simp_all add: ey_def max_def split: if_splits)
    have "fl x \<le> 2 powi (ex + 1)" unfolding ex_def by (rule fl_upper [OF assms(1)])
    also have "\<dots> \<le> 2 powi ey" using lt by (rule power_int_increasing) simp
    also have "\<dots> \<le> fl y" unfolding yb(1) by (rule fl_lower [OF ypos yb(2)])
    finally show ?thesis .
  qed
qed

lemma fl_mono:
  assumes "x \<le> y"
  shows "fl x \<le> fl y"
proof -
  consider "0 < x" | "x \<le> 0" "0 \<le> y" | "y < 0" by linarith
  then show ?thesis
  proof cases
    case 1
    then show ?thesis using assms by (rule fl_mono_pos)
  next
    case 2
    have "0 \<le> fl (- x)" using 2(1) by (intro fl_nonneg) simp
    then have "fl x \<le> 0" by (simp add: fl_minus)
    moreover have "0 \<le> fl y" using 2(2) by (rule fl_nonneg)
    ultimately show ?thesis by linarith
  next
    case 3
    have "fl (- y) \<le> fl (- x)" using 3 assms by (intro fl_mono_pos) simp_all
    then show ?thesis by (simp add: fl_minus)
  qed
qed

lemma fl_abs: "fl \<bar>x\<bar> = \<bar>fl x\<bar>"
proof (cases "0 \<le> x")
  case True
  then show ?thesis using fl_nonneg [OF True] by simp
next
  case False
  then have "0 \<le> fl (- x)" by (intro fl_nonneg) simp
  then show ?thesis using False by (simp add: fl_minus)
qed

lemma fl_abs_le:
  assumes "\<bar>x\<bar> \<le> 2 powi k" "- 1022 \<le> k"
  shows "\<bar>fl x\<bar> \<le> 2 powi k"
proof -
  have "fl \<bar>x\<bar> \<le> fl (2 powi k)" using assms(1) by (rule fl_mono)
  then show ?thesis by (simp add: fl_abs fl_pow2 [OF assms(2)])
qed

text \<open>
  \<open>round64\<close>: a finite double unless the nearest double would be \<open>2\<^sup>1\<^sup>0\<^sup>2\<^sup>4\<close> or beyond, and
  never NaN.
\<close>

lemma round64_finite:
  assumes "\<bar>x\<bar> \<le> 2 ^ 1023"
  shows "round64 x = Finite (fl x)"
proof -
  have "\<bar>x\<bar> \<le> 2 powi 1023" using assms by simp
  then have "\<bar>fl x\<bar> \<le> 2 powi 1023" by (rule fl_abs_le) simp
  then have b: "\<bar>fl x\<bar> < 2 powi 1024" by (rule order_le_less_trans) simp
  have "binade (fl x) < 1024"
  proof (cases "fl x = 0")
    case True
    then show ?thesis by simp
  next
    case False
    with b show ?thesis by (rule binade_less)
  qed
  then show ?thesis by (simp add: round64_def Let_def)
qed

lemma round64_overflow:
  assumes "2 ^ 1024 \<le> x"
  shows "round64 x = PInf"
proof -
  have "(2::real) powi 1024 \<le> x" using assms by simp
  then have "fl (2 powi 1024) \<le> fl x" by (rule fl_mono)
  then have f: "2 powi 1024 \<le> fl x" by (simp only: fl_pow2)
  have "(0::real) < 2 powi 1024" by simp
  with f have pos: "0 < fl x" by linarith
  then have "2 powi 1024 \<le> \<bar>fl x\<bar>" using f by simp
  then have "1024 \<le> binade (fl x)" by (rule binade_ge)
  then show ?thesis using pos by (simp add: round64_def Let_def)
qed

lemma round64_cases:
  "round64 x = Finite (fl x) \<and> \<bar>fl x\<bar> < 2 ^ 1024 \<or>
   round64 x = PInf \<and> 2 ^ 1024 \<le> fl x \<or>
   round64 x = NInf \<and> fl x \<le> - (2 ^ 1024)"
proof (cases "binade (fl x) < 1024")
  case True
  have "\<bar>fl x\<bar> < 2 ^ 1024"
  proof (cases "fl x = 0")
    case True
    then show ?thesis by simp
  next
    case False
    from binade_bounds [OF this] have "\<bar>fl x\<bar> < 2 powi (binade (fl x) + 1)" by simp
    also have "\<dots> \<le> 2 powi 1024" using True by (intro power_int_increasing) simp_all
    finally show ?thesis by simp
  qed
  with True show ?thesis by (simp add: round64_def Let_def)
next
  case False
  then have nz: "fl x \<noteq> 0" by auto
  have "(2::real) powi 1024 \<le> 2 powi binade (fl x)"
    using False by (intro power_int_increasing) simp_all
  also have "\<dots> \<le> \<bar>fl x\<bar>" using binade_bounds [OF nz] by simp
  finally have "2 ^ 1024 \<le> \<bar>fl x\<bar>" by simp
  with False show ?thesis by (auto simp: round64_def Let_def)
qed

lemma round64_not_NaN [simp]: "round64 x \<noteq> NaN"
  using round64_cases [of x] by auto

text \<open>
  \<open>\<pi>\<close> to seventeen digits, from Machin's formula and the alternating series of
  \<open>arctan\<close>; the double \<^verbatim>\<open>M_PI\<close> is \<open>\<pi>\<close> rounded, and it is below \<open>\<pi>\<close>.
\<close>

lemma arctan_sum_bounds:
  assumes "0 < x" "x \<le> 1"
  shows "arctan_sum x (2 * n) \<le> arctan x" "arctan x \<le> arctan_sum x (2 * n + 1)"
proof -
  have ax: "\<bar>x\<bar> \<le> 1" using assms by simp
  have "0 < 1 / real (0 * 2 + 1) * x ^ (0 * 2 + 1)" using assms by simp
  with summable_Leibniz(2) [OF zeroseq_arctan_series [OF ax] monoseq_arctan_series [OF ax]]
  have "\<forall>n. (\<Sum>i. (- 1) ^ i * (1 / real (i * 2 + 1) * x ^ (i * 2 + 1)))
          \<in> {arctan_sum x (2 * n) .. arctan_sum x (2 * n + 1)}"
    unfolding arctan_sum_def by blast
  then have "arctan x \<in> {arctan_sum x (2 * n) .. arctan_sum x (2 * n + 1)}"
    unfolding arctan_series [OF ax] by blast
  then show "arctan_sum x (2 * n) \<le> arctan x" "arctan x \<le> arctan_sum x (2 * n + 1)"
    by simp_all
qed

lemma pi_bounds:
  "314159265358979323 / 10 ^ 17 < pi" "pi < 314159265358979324 / 10 ^ 17"
proof -
  have 1: "arctan_sum (1 / 5) (2 * 6) \<le> arctan (1 / 5)" by (rule arctan_sum_bounds) simp_all
  have 2: "arctan (1 / 239) \<le> arctan_sum (1 / 239) (2 * 2 + 1)" by (rule arctan_sum_bounds) simp_all
  have 3: "arctan (1 / 5) \<le> arctan_sum (1 / 5) (2 * 6 + 1)" by (rule arctan_sum_bounds) simp_all
  have 4: "arctan_sum (1 / 239) (2 * 2) \<le> arctan (1 / 239)" by (rule arctan_sum_bounds) simp_all
  have m: "pi = 16 * arctan (1 / 5) - 4 * arctan (1 / 239)" using machin by simp
  have "314159265358979323 / 10 ^ 17
      < 16 * arctan_sum (1 / 5) (2 * 6) - 4 * arctan_sum (1 / 239) (2 * 2 + 1)"
    unfolding arctan_sum_def by (simp add: lessThan_Suc eval_nat_numeral)
  with 1 2 m show "314159265358979323 / 10 ^ 17 < pi" by linarith
  have "16 * arctan_sum (1 / 5) (2 * 6 + 1) - 4 * arctan_sum (1 / 239) (2 * 2)
      < 314159265358979324 / 10 ^ 17"
    unfolding arctan_sum_def by (simp add: lessThan_Suc eval_nat_numeral)
  with 3 4 m show "pi < 314159265358979324 / 10 ^ 17" by linarith
qed

lemma M_PI_nearest: "round64 pi = M_PI"
proof -
  have lo: "fl (314159265358979323 / 10 ^ 17) = 884279719003555 / 281474976710656"
    by code_simp
  have hi: "fl (314159265358979324 / 10 ^ 17) = 884279719003555 / 281474976710656"
    by code_simp
  have "fl (314159265358979323 / 10 ^ 17) \<le> fl pi"
    using pi_bounds(1) by (intro fl_mono) simp
  moreover have "fl pi \<le> fl (314159265358979324 / 10 ^ 17)"
    using pi_bounds(2) by (intro fl_mono) simp
  ultimately have f: "fl pi = 884279719003555 / 281474976710656" unfolding lo hi by simp
  have "\<bar>pi\<bar> \<le> 2 ^ 1023" using pi_bounds(2) by simp
  then show ?thesis by (simp add: round64_finite f M_PI_def)
qed

lemma two_pi_less: "two_pi < 2 * pi"
  using pi_bounds(1) by (simp add: two_pi_def)

section \<open>Forces and torques: the guard on the mass and the wrapping loops\<close>

text \<open>
  \<^verbatim>\<open>2*M_PI\<close> is the double \<open>two_pi\<close>, exactly; it lies between 6 and 7 and below \<open>2\<pi>\<close>.
\<close>

lemma two_M_PI: "dmul (Finite 2) M_PI = Finite two_pi"
  unfolding two_pi_def by code_simp

lemma fl_two_pi: "fl two_pi = two_pi"
  unfolding two_pi_def by code_simp

lemma two_pi_bounds: "6 < two_pi" "two_pi < 7"
  by (simp_all add: two_pi_def)

lemma sub_loop_simps:
  "rotation_sub_loop r =
     (if dge r (Finite two_pi) then rotation_sub_loop (dsub r (Finite two_pi)) else Some r)"
  by (subst rotation_sub_loop.simps) (simp only: two_M_PI)

lemma add_loop_simps:
  "rotation_add_loop r =
     (if dlt r (Finite 0) then rotation_add_loop (dadd r (Finite two_pi)) else Some r)"
  by (subst rotation_add_loop.simps) (simp add: two_M_PI)

text \<open>
  What the loops return when they return: the first one a value that fails its test,
  the second one, started from such a value, a finite value in \<open>[0, two_pi]\<close>. The upper
  end is reached: a tiny negative rotation plus \<open>two_pi\<close> rounds to \<open>two_pi\<close>.
\<close>

lemma sub_loop_result:
  assumes h: "rotation_sub_loop r = Some y"
  shows "\<not> dge y (Finite two_pi) \<and> (r \<noteq> NaN \<longrightarrow> y \<noteq> NaN \<and> y \<noteq> PInf)"
proof (rule rotation_sub_loop.raw_induct
    [where P = "\<lambda>r y. \<not> dge y (Finite two_pi) \<and> (r \<noteq> NaN \<longrightarrow> y \<noteq> NaN \<and> y \<noteq> PInf)", OF _ h])
  fix f r y
  assume IH: "\<And>x y. f x = Some y \<Longrightarrow>
      \<not> dge y (Finite two_pi) \<and> (x \<noteq> NaN \<longrightarrow> y \<noteq> NaN \<and> y \<noteq> PInf)"
    and step: "(if dge r (dmul (Finite 2) M_PI)
                then f (dsub r (dmul (Finite 2) M_PI)) else Some r) = Some y"
  show "\<not> dge y (Finite two_pi) \<and> (r \<noteq> NaN \<longrightarrow> y \<noteq> NaN \<and> y \<noteq> PInf)"
  proof (cases "dge r (Finite two_pi)")
    case True
    with step have "f (dsub r (Finite two_pi)) = Some y" by (simp add: two_M_PI)
    from IH [OF this] have 1: "\<not> dge y (Finite two_pi)"
      and 2: "dsub r (Finite two_pi) \<noteq> NaN \<longrightarrow> y \<noteq> NaN \<and> y \<noteq> PInf" by simp_all
    have "dsub r (Finite two_pi) \<noteq> NaN" if "r \<noteq> NaN"
      using that True by (cases r) (simp_all add: dsub_def dge_def)
    with 1 2 show ?thesis by simp
  next
    case False
    with step have "y = r" by (simp add: two_M_PI)
    with False show ?thesis by (cases r) (simp_all add: dge_def)
  qed
qed

lemma add_loop_result:
  assumes h: "rotation_add_loop r = Some y"
  shows "(r = NInf \<or> (\<exists>a. r = Finite a \<and> a \<le> two_pi)) \<longrightarrow>
         (\<exists>z. y = Finite z \<and> 0 \<le> z \<and> z \<le> two_pi)"
proof (rule rotation_add_loop.raw_induct
    [where P = "\<lambda>r y. (r = NInf \<or> (\<exists>a. r = Finite a \<and> a \<le> two_pi)) \<longrightarrow>
         (\<exists>z. y = Finite z \<and> 0 \<le> z \<and> z \<le> two_pi)", OF _ h])
  fix f r y
  assume IH: "\<And>x y. f x = Some y \<Longrightarrow>
      (x = NInf \<or> (\<exists>a. x = Finite a \<and> a \<le> two_pi)) \<longrightarrow>
         (\<exists>z. y = Finite z \<and> 0 \<le> z \<and> z \<le> two_pi)"
    and step: "(if dlt r (Finite 0.0)
                then f (dadd r (dmul (Finite 2) M_PI)) else Some r) = Some y"
  show "(r = NInf \<or> (\<exists>a. r = Finite a \<and> a \<le> two_pi)) \<longrightarrow>
         (\<exists>z. y = Finite z \<and> 0 \<le> z \<and> z \<le> two_pi)"
  proof
    assume r: "r = NInf \<or> (\<exists>a. r = Finite a \<and> a \<le> two_pi)"
    show "\<exists>z. y = Finite z \<and> 0 \<le> z \<and> z \<le> two_pi"
    proof (cases "dlt r (Finite 0)")
      case True
      with step have fy: "f (dadd r (Finite two_pi)) = Some y" by (simp add: two_M_PI)
      have "dadd r (Finite two_pi) = NInf \<or> (\<exists>a. dadd r (Finite two_pi) = Finite a \<and> a \<le> two_pi)"
      proof (cases r)
        case (Finite a)
        with True have a: "a < 0" by simp
        then have "fl (a + two_pi) \<le> fl two_pi" by (intro fl_mono) simp
        then have le: "fl (a + two_pi) \<le> two_pi" by (simp only: fl_two_pi)
        have "two_pi < 2 ^ 1024" using two_pi_bounds(2) by (rule less_trans) simp
        with le have "\<not> 2 ^ 1024 \<le> fl (a + two_pi)" by linarith
        with round64_cases [of "a + two_pi"] le show ?thesis
          unfolding Finite by auto
      qed (use r True in simp_all)
      with IH [OF fy] show ?thesis by blast
    next
      case False
      with step have "y = r" by (simp add: two_M_PI)
      with False r show ?thesis by auto
    qed
  qed
qed

lemma sum_not_NaN:
  assumes "m \<noteq> 0"
  shows "dadd (Finite a) (ddiv (Finite t) (Finite m)) \<noteq> NaN"
proof -
  have "ddiv (Finite t) (Finite m) = round64 (t / m)" using assms by simp
  with round64_cases [of "t / m"] show ?thesis by auto
qed

lemma wrap_result:
  assumes s: "s \<noteq> NaN"
    and 1: "rotation_sub_loop s = Some r1"
    and 2: "rotation_add_loop r1 = Some r2"
  shows "\<exists>z. r2 = Finite z \<and> 0 \<le> z \<and> z \<le> two_pi"
proof -
  from sub_loop_result [OF 1] s have a: "\<not> dge r1 (Finite two_pi)" "r1 \<noteq> NaN" "r1 \<noteq> PInf"
    by simp_all
  then have "r1 = NInf \<or> (\<exists>a. r1 = Finite a \<and> a \<le> two_pi)"
    by (cases r1) (simp_all add: dge_def)
  with add_loop_result [OF 2] show ?thesis by blast
qed


lemma apply_torque_None:
  assumes m: "mass e \<noteq> 0"
  shows "apply_torque e t = None \<longleftrightarrow>
         (\<forall>r. rotation_sub_loop (dadd (Finite (rotation e)) (ddiv (Finite t) (Finite (mass e))))
                 = Some r \<longrightarrow> rotation_add_loop r = None)"
proof -
  define s where "s = dadd (Finite (rotation e)) (ddiv (Finite t) (Finite (mass e)))"
  have sn: "s \<noteq> NaN" unfolding s_def by (rule sum_not_NaN [OF m])
  show ?thesis
  proof (cases "rotation_sub_loop s")
    case None
    then show ?thesis using m by (simp add: apply_torque_def s_def)
  next
    case (Some r1)
    show ?thesis
    proof (cases "rotation_add_loop r1")
      case None
      with Some show ?thesis using m by (simp add: apply_torque_def s_def)
    next
      case r2: (Some r2)
      from wrap_result [OF sn Some r2] obtain z where "r2 = Finite z" by blast
      with Some r2 show ?thesis using m by (simp add: apply_torque_def s_def)
    qed
  qed
qed


text \<open>
  The loops end when the sum is at most \<open>2\<^sup>5\<^sup>2\<close> in absolute value: there a rounded step
  still moves the rotation by at least 5.
\<close>

lemma fl_error_small:
  assumes "\<bar>x\<bar> \<le> 2 ^ 52"
  shows "\<bar>fl x - x\<bar> \<le> 1"
proof -
  have "\<bar>fl x - x\<bar> \<le> \<bar>x\<bar> / 2 ^ 53 + 1 / 2 ^ 1075" by (rule fl_error)
  also have "\<dots> \<le> 2 ^ 52 / 2 ^ 53 + 1 / 2 ^ 1075"
    using assms by (intro add_right_mono divide_right_mono) simp_all
  also have "\<dots> \<le> 1" by simp
  finally show ?thesis .
qed

lemma sub_loop_terminates:
  assumes "0 \<le> r" "r \<le> real n" "n \<le> 2 ^ 52"
  shows "\<exists>y. rotation_sub_loop (Finite r) = Some (Finite y) \<and> 0 \<le> y \<and> y < two_pi"
  using assms
proof (induction n arbitrary: r rule: less_induct)
  case (less n)
  show ?case
  proof (cases "r < two_pi")
    case True
    then have "rotation_sub_loop (Finite r) = Some (Finite r)"
      by (subst sub_loop_simps) (simp add: dge_def)
    with True less.prems(1) show ?thesis by simp
  next
    case False
    then have ge: "two_pi \<le> r" by simp
    have "real n \<le> 2 ^ 52" using less.prems(3) by (metis of_nat_le_iff of_nat_numeral of_nat_power)
    with less.prems(2) have rb: "r \<le> 2 ^ 52" by linarith
    have ab: "\<bar>r - two_pi\<bar> \<le> 2 ^ 52" using ge rb two_pi_bounds by simp
    define r' where "r' = fl (r - two_pi)"
    have "\<bar>r - two_pi\<bar> \<le> 2 ^ 1023" using ab by (rule order_trans) simp
    then have d: "dsub (Finite r) (Finite two_pi) = Finite r'"
      by (simp add: dsub_def round64_finite r'_def)
    have r'0: "0 \<le> r'" unfolding r'_def using ge by (intro fl_nonneg) simp
    have "\<bar>r' - (r - two_pi)\<bar> \<le> 1" unfolding r'_def by (rule fl_error_small [OF ab])
    then have r'le: "r' \<le> r - 5" using two_pi_bounds by linarith
    have n5: "5 \<le> n" using less.prems(2) ge two_pi_bounds by linarith
    then have "real (n - 5) = real n - 5" by simp
    with r'le less.prems(2) have "r' \<le> real (n - 5)" by linarith
    moreover have "n - 5 < n" using n5 by simp
    moreover have "n - 5 \<le> 2 ^ 52" using less.prems(3) by simp
    ultimately obtain y where "rotation_sub_loop (Finite r') = Some (Finite y)" "0 \<le> y" "y < two_pi"
      using less.IH [of "n - 5" r'] r'0 by blast
    moreover have "rotation_sub_loop (Finite r) = rotation_sub_loop (Finite r')"
      using ge by (subst sub_loop_simps) (simp add: dge_def d)
    ultimately show ?thesis by simp
  qed
qed

lemma add_loop_terminates:
  assumes "r < 0" "- r \<le> real n" "n \<le> 2 ^ 52"
  shows "\<exists>y. rotation_add_loop (Finite r) = Some (Finite y) \<and> 0 \<le> y \<and> y \<le> two_pi"
  using assms
proof (induction n arbitrary: r rule: less_induct)
  case (less n)
  have "real n \<le> 2 ^ 52" using less.prems(3) by (metis of_nat_le_iff of_nat_numeral of_nat_power)
  with less.prems(2) have rb: "- (2 ^ 52) \<le> r" by linarith
  have ab: "\<bar>r + two_pi\<bar> \<le> 2 ^ 52" using rb less.prems(1) two_pi_bounds by simp
  define r' where "r' = fl (r + two_pi)"
  have "\<bar>r + two_pi\<bar> \<le> 2 ^ 1023" using ab by (rule order_trans) simp
  then have d: "round64 (r + two_pi) = Finite r'"
    by (simp add: round64_finite r'_def)
  have step: "rotation_add_loop (Finite r) = rotation_add_loop (Finite r')"
    using less.prems(1) by (subst add_loop_simps) (simp add: d)
  have "fl (r + two_pi) \<le> fl two_pi" using less.prems(1) by (intro fl_mono) simp
  then have r'T: "r' \<le> two_pi" by (simp only: r'_def fl_two_pi)
  show ?case
  proof (cases "r' < 0")
    case False
    then have "rotation_add_loop (Finite r') = Some (Finite r')"
      by (subst add_loop_simps) simp
    with step False r'T show ?thesis by simp
  next
    case True
    have "\<bar>r' - (r + two_pi)\<bar> \<le> 1" unfolding r'_def by (rule fl_error_small [OF ab])
    then have r'ge: "r + 5 \<le> r'" using two_pi_bounds by linarith
    have n5: "5 \<le> n" using less.prems(2) r'ge True by linarith
    then have "real (n - 5) = real n - 5" by simp
    with r'ge less.prems(2) have "- r' \<le> real (n - 5)" by linarith
    moreover have "n - 5 < n" using n5 by simp
    moreover have "n - 5 \<le> 2 ^ 52" using less.prems(3) by simp
    ultimately obtain y where "rotation_add_loop (Finite r') = Some (Finite y)" "0 \<le> y" "y \<le> two_pi"
      using less.IH [of "n - 5" r'] True by blast
    with step show ?thesis by simp
  qed
qed

lemma apply_torque_returns:
  assumes m: "mass e \<noteq> 0"
    and s: "dadd (Finite (rotation e)) (ddiv (Finite t) (Finite (mass e))) = Finite r"
    and r: "\<bar>r\<bar> \<le> 2 ^ 52"
  shows "\<exists>z. apply_torque e t = Some (e\<lparr>rotation := z\<rparr>) \<and> 0 \<le> z \<and> z \<le> two_pi"
proof -
  define n where "n = nat \<lceil>\<bar>r\<bar>\<rceil>"
  have "\<lceil>\<bar>r\<bar>\<rceil> \<le> 2 ^ 52" using r by (simp add: ceiling_le_iff)
  then have n1: "n \<le> 2 ^ 52" by (simp add: n_def nat_le_iff)
  have n2: "\<bar>r\<bar> \<le> real n" by (simp add: n_def)
  show ?thesis
  proof (cases "0 \<le> r")
    case True
    from sub_loop_terminates [OF True _ n1] n2 True
    obtain y where y: "rotation_sub_loop (Finite r) = Some (Finite y)" "0 \<le> y" "y < two_pi"
      by auto
    have "rotation_add_loop (Finite y) = Some (Finite y)"
      using y(2) by (subst add_loop_simps) simp
    with y have "apply_torque e t = Some (e\<lparr>rotation := y\<rparr>)"
      unfolding apply_torque_def s using m by simp
    with y show ?thesis by auto
  next
    case False
    then have neg: "r < 0" by simp
    have 1: "rotation_sub_loop (Finite r) = Some (Finite r)"
      using neg two_pi_bounds by (subst sub_loop_simps) (simp add: dge_def)
    from add_loop_terminates [OF neg _ n1] n2 neg
    obtain y where y: "rotation_add_loop (Finite r) = Some (Finite y)" "0 \<le> y" "y \<le> two_pi"
      by auto
    with 1 have "apply_torque e t = Some (e\<lparr>rotation := y\<rparr>)"
      unfolding apply_torque_def s using m by simp
    with y show ?thesis by auto
  qed
qed




text \<open>
  The rotation of a fresh entity after a torque of \<open>10\<^sup>1\<^sup>7\<close>: the sum is \<open>10\<^sup>1\<^sup>7\<close>, the
  doubles around it are 16 apart, and \<open>10\<^sup>1\<^sup>7 - 2*M_PI\<close> rounds back to \<open>10\<^sup>1\<^sup>7\<close>. The
  first loop makes no progress. With \<open>-10\<^sup>1\<^sup>7\<close> the second loop does the same.
\<close>

lemma sub_at_1e17: "dsub (Finite (10 ^ 17)) (Finite two_pi) = Finite (10 ^ 17)"
  unfolding two_pi_def by code_simp

lemma add_at_1e17: "dadd (Finite (- (10 ^ 17))) (Finite two_pi) = Finite (- (10 ^ 17))"
  unfolding two_pi_def by code_simp

lemma sub_loop_never: "rotation_sub_loop (Finite (10 ^ 17)) = None"
proof -
  have "r \<noteq> Finite (10 ^ 17)" if h: "rotation_sub_loop r = Some y" for r y
  proof (rule rotation_sub_loop.raw_induct [where P = "\<lambda>r y. r \<noteq> Finite (10 ^ 17)", OF _ h])
    fix f r y
    assume IH: "\<And>x y. f x = Some y \<Longrightarrow> x \<noteq> Finite (10 ^ 17)"
      and step: "(if dge r (dmul (Finite 2) M_PI)
                  then f (dsub r (dmul (Finite 2) M_PI)) else Some r) = Some y"
    show "r \<noteq> Finite (10 ^ 17)"
    proof
      assume r: "r = Finite (10 ^ 17)"
      have "dge (Finite (10 ^ 17)) (Finite two_pi)" by (simp add: dge_def two_pi_def)
      with step have "f (Finite (10 ^ 17)) = Some y"
        unfolding r two_M_PI by (simp only: sub_at_1e17 if_True)
      with IH show False by blast
    qed
  qed
  then show ?thesis by (cases "rotation_sub_loop (Finite (10 ^ 17))") auto
qed

lemma add_loop_never: "rotation_add_loop (Finite (- (10 ^ 17))) = None"
proof -
  have "r \<noteq> Finite (- (10 ^ 17))" if h: "rotation_add_loop r = Some y" for r y
  proof (rule rotation_add_loop.raw_induct [where P = "\<lambda>r y. r \<noteq> Finite (- (10 ^ 17))", OF _ h])
    fix f r y
    assume IH: "\<And>x y. f x = Some y \<Longrightarrow> x \<noteq> Finite (- (10 ^ 17))"
      and step: "(if dlt r (Finite 0.0)
                  then f (dadd r (dmul (Finite 2) M_PI)) else Some r) = Some y"
    show "r \<noteq> Finite (- (10 ^ 17))"
    proof
      assume r: "r = Finite (- (10 ^ 17))"
      have "dlt (Finite (- (10 ^ 17))) (Finite 0.0)" by simp
      with step have "f (Finite (- (10 ^ 17))) = Some y"
        unfolding r two_M_PI by (simp only: add_at_1e17 if_True)
      with IH show False by blast
    qed
  qed
  then show ?thesis by (cases "rotation_add_loop (Finite (- (10 ^ 17)))") auto
qed

lemma sum_at_1e17:
  "dadd (Finite 0) (ddiv (Finite (10 ^ 17)) (Finite 1)) = Finite (10 ^ 17)"
  "dadd (Finite 0) (ddiv (Finite (- (10 ^ 17))) (Finite 1)) = Finite (- (10 ^ 17))"
  by code_simp+

text \<open>
  C9 fails on the code. For a fresh entity (mass 1, rotation 0) and the finite torque
  \<open>10\<^sup>1\<^sup>7\<close>, and likewise \<open>-10\<^sup>1\<^sup>7\<close>, \<^verbatim>\<open>apply_torque\<close> never returns, so the rotation is
  never brought into \<open>[0, 2\<pi>)\<close>. Where the call returns the rotation does lie in
  \<open>[0, 2\<pi>)\<close> (lemmas \<open>apply_torque_Some\<close> and \<open>two_pi_less\<close>), and it returns whenever
  the sum is at most \<open>2\<^sup>5\<^sup>2\<close> in absolute value (lemma \<open>apply_torque_returns\<close>).
\<close>

theorem C9_apply_torque_never_returns:
  "apply_torque Entity_init (10 ^ 17) = None \<and>
   apply_torque Entity_init (- (10 ^ 17)) = None"
proof -
  have f: "rotation Entity_init = 0" "mass Entity_init = 1" by (simp_all add: Entity_init_def)
  have n: "rotation_sub_loop (Finite (- (10 ^ 17))) = Some (Finite (- (10 ^ 17)))"
    by (subst sub_loop_simps) (simp add: dge_def two_pi_def)
  have 1: "apply_torque Entity_init (10 ^ 17) = None"
    unfolding apply_torque_def f sum_at_1e17 sub_loop_never by simp
  have a: "rotation_add_loop (Finite (- 100000000000000000)) = None"
    using add_loop_never by simp
  have 2: "apply_torque Entity_init (- (10 ^ 17)) = None"
    unfolding apply_torque_def f sum_at_1e17 n by (simp add: a)
  from 1 2 show ?thesis by simp
qed

section \<open>Division of a vector by zero\<close>

text \<open>
  C2 (as amended). For a divisor exactly zero, the struct functions \<^verbatim>\<open>vec2_div\<close>,
  \<^verbatim>\<open>vec3_div\<close> and \<^verbatim>\<open>vec4_div\<close> return the zero vector of their dimension, and the
  operators \<^verbatim>\<open>Vector2.__truediv__\<close>, \<^verbatim>\<open>Vector3.__truediv__\<close> and
  \<^verbatim>\<open>Vector4.__truediv__\<close> raise \<^verbatim>\<open>ZeroDivisionError\<close>.
\<close>

theorem C2_division_by_zero:
  "vec2_div u 0 = (0, 0) \<and> vec3_div v 0 = (0, 0, 0) \<and> vec4_div w 0 = (0, 0, 0, 0) \<and>
   Vector2_truediv a 0 = Inl ZeroDivisionError \<and>
   Vector3_truediv b (Scalar 0) = Inl ZeroDivisionError \<and>
   Vector4_truediv c (Scalar 0) = Inl ZeroDivisionError"
  by (cases u, cases v, cases w) (simp add: Vector2_truediv_def)

text \<open>
  C2 as the spec states it fails: dividing the \<^verbatim>\<open>Vector2\<close> (1, 2) by 0 raises, it does
  not return the zero vector.
\<close>

theorem C2_truediv_raises_counterexample:
  "Vector2_truediv \<lparr>x_v2 = 1, y_v2 = 2\<rparr> 0 = Inl ZeroDivisionError \<and>
   Vector2_truediv \<lparr>x_v2 = 1, y_v2 = 2\<rparr> 0 \<noteq> Inr \<lparr>x_v2 = 0, y_v2 = 0\<rparr>"
  by (simp add: Vector2_truediv_def)

section \<open>Collision response\<close>

lemma handle_collision_immovable:
  assumes "\<not> distance_sq_of e1 e2 < 0.0001" "\<not> 0 < mass e1" "\<not> 0 < mass e2"
  shows "handle_collision e1 e2 c = (e1, e2)"
  using assms by (simp add: handle_collision_def distance_sq_of_def Let_def)

text \<open>
  C10. When both entities have mass \<open>\<le> 0\<close> and the squared distance of their centres is
  at least \<open>10\<^sup>-\<^sup>4\<close>, \<^verbatim>\<open>_handle_collision\<close> changes no field of either entity; a pass of
  \<^verbatim>\<open>resolve_collisions\<close> over the two leaves them as they are, overlapping or not.
\<close>

theorem C10_immovable_pair_unchanged:
  "mass e1 \<le> 0 \<Longrightarrow> mass e2 \<le> 0 \<Longrightarrow> 0.0001 \<le> distance_sq_of e1 e2 \<Longrightarrow>
   handle_collision e1 e2 c = (e1, e2) \<and> resolve_collisions [e1, e2] c = [e1, e2]"
proof -
  assume a: "mass e1 \<le> 0" "mass e2 \<le> 0" "0.0001 \<le> distance_sq_of e1 e2"
  then have h: "handle_collision e1 e2 c = (e1, e2)"
    by (intro handle_collision_immovable) simp_all
  have u: "[Suc 0..<2] = [Suc 0]" "[0..<2] = [0, Suc 0]"
    by (simp_all add: upt_rec)
  have "resolve_pair 0 (Suc 0) c [e1, e2] = [e1, e2]"
    using h by (simp add: resolve_pair_def Let_def)
  then have "resolve_collisions [e1, e2] c = [e1, e2]"
    by (simp add: resolve_collisions_def resolve_row_def u)
  with h show ?thesis by simp
qed

text \<open>C10 at two static bodies of radius 1 whose centres are 1 apart.\<close>

theorem C10_immovable_pair_unchanged_witness:
  "handle_collision static_B (static_B\<lparr>x_ent := 1\<rparr>) 0.8 = (static_B, static_B\<lparr>x_ent := 1\<rparr>) \<and>
   resolve_collisions [static_B, static_B\<lparr>x_ent := 1\<rparr>] 0.8 = [static_B, static_B\<lparr>x_ent := 1\<rparr>]"
proof -
  have "mass static_B \<le> 0" "mass (static_B\<lparr>x_ent := 1\<rparr>) \<le> 0"
       "0.0001 \<le> distance_sq_of static_B (static_B\<lparr>x_ent := 1\<rparr>)"
    by (simp_all add: static_B_def Entity_init_def distance_sq_of_def)
  then show ?thesis by (rule C10_immovable_pair_unchanged)
qed

text \<open>The collision normal has length 1 whenever the pair is not degenerate.\<close>

lemma unit_aux:
  fixes a b :: real
  assumes "0 < a * a + b * b"
  shows "(a / sqrt (a * a + b * b)) * (a / sqrt (a * a + b * b))
           + (b / sqrt (a * a + b * b)) * (b / sqrt (a * a + b * b)) = 1"
proof -
  define s where "s = sqrt (a * a + b * b)"
  have ss: "s * s = a * a + b * b" using assms by (simp add: s_def)
  have "(a / s) * (a / s) + (b / s) * (b / s) = (a * a + b * b) / (s * s)"
    by (simp add: add_divide_distrib)
  also have "\<dots> = (s * s) / (s * s)" by (simp only: ss)
  also have "\<dots> = 1"
  proof (rule divide_self)
    show "s * s \<noteq> 0" using assms ss by linarith
  qed
  finally show ?thesis by (simp only: s_def)
qed

lemma normal_unit:
  assumes "0.0001 \<le> distance_sq_of e1 e2"
  shows "fst (spec_normal e1 e2) * fst (spec_normal e1 e2)
           + snd (spec_normal e1 e2) * snd (spec_normal e1 e2) = 1"
proof -
  have "0 < distance_sq_of e1 e2" using assms by simp
  then show ?thesis
    unfolding spec_normal_def Let_def distance_sq_of_def fst_conv snd_conv
    by (rule unit_aux)
qed





lemma sqrt_9_4: "sqrt (9 / 4) = 3 / 2"
  by (rule real_sqrt_unique) (simp_all add: power2_eq_square)

lemma head_on_handle:
  "handle_collision head_on_A head_on_B 1.0
     = (head_on_A\<lparr>x_ent := - 0.25, vx := - 1\<rparr>, head_on_B\<lparr>x_ent := 1.75, vx := 1\<rparr>)"
  by (simp add: handle_collision_def head_on_A_def head_on_B_def Entity_init_def Let_def sqrt_9_4)

lemma head_on_resolve:
  "resolve_collisions [head_on_A, head_on_B] 1.0
     = [head_on_A\<lparr>x_ent := - 0.25, vx := - 1\<rparr>, head_on_B\<lparr>x_ent := 1.75, vx := 1\<rparr>]"
proof -
  have u: "[Suc 0..<2] = [Suc 0]" "[0..<2] = [0, Suc 0]"
    by (simp_all add: upt_rec)
  have a: "active head_on_A" "active head_on_B"
    by (simp_all add: head_on_A_def head_on_B_def Entity_init_def)
  have c: "\<not> distance_sq_of head_on_A head_on_B
              > (radius head_on_A + radius head_on_B) * (radius head_on_A + radius head_on_B)"
    by (simp add: distance_sq_of_def head_on_A_def head_on_B_def Entity_init_def)
  have "resolve_pair 0 (Suc 0) 1.0 [head_on_A, head_on_B]
          = [head_on_A\<lparr>x_ent := - 0.25, vx := - 1\<rparr>, head_on_B\<lparr>x_ent := 1.75, vx := 1\<rparr>]"
    using a c head_on_handle by (simp add: resolve_pair_def Let_def distance_sq_of_def)
  then show ?thesis
    using a by (simp add: resolve_collisions_def resolve_row_def u)
qed

text \<open>
  C4. One pass of \<^verbatim>\<open>resolve_collisions\<close> with restitution 1 over the head-on pair of the
  spec: the x-velocities become -1 and 1, the y-velocities stay 0, and the centres end
  at distance 2, so no overlap is left.
\<close>

theorem C4_elastic_head_on:
  "vx (resolve_collisions [head_on_A, head_on_B] 1.0 ! 0) = - 1 \<and>
   vx (resolve_collisions [head_on_A, head_on_B] 1.0 ! 1) = 1 \<and>
   vy (resolve_collisions [head_on_A, head_on_B] 1.0 ! 0) = 0 \<and>
   vy (resolve_collisions [head_on_A, head_on_B] 1.0 ! 1) = 0 \<and>
   2 \<le> sqrt (distance_sq_of (resolve_collisions [head_on_A, head_on_B] 1.0 ! 0)
                              (resolve_collisions [head_on_A, head_on_B] 1.0 ! 1))"
proof -
  have "sqrt (distance_sq_of (head_on_A\<lparr>x_ent := - 0.25, vx := - 1\<rparr>)
                             (head_on_B\<lparr>x_ent := 1.75, vx := 1\<rparr>)) = sqrt (2 * 2)"
    by (simp add: distance_sq_of_def head_on_A_def head_on_B_def Entity_init_def)
  then have "sqrt (distance_sq_of (head_on_A\<lparr>x_ent := - 0.25, vx := - 1\<rparr>)
                             (head_on_B\<lparr>x_ent := 1.75, vx := 1\<rparr>)) = 2"
    by simp
  then show ?thesis
    unfolding head_on_resolve by (simp add: head_on_A_def head_on_B_def Entity_init_def)
qed

section \<open>Matrix4: product, determinant and inverse\<close>





lemma length_adjugate: "length (adjugate d) = 16"
  by (simp add: adjugate_def)

text \<open>
  Past the test on the determinant, \<^verbatim>\<open>inverse\<close> returns the adjugate scaled by
  \<open>1 / det\<close>; and a matrix times its adjugate is the determinant times the identity
  (sixteen polynomial identities in the sixteen cells).
\<close>

lemma inverse_data:
  assumes "\<not> \<bar>Matrix4_determinant m\<bar> < 1 / 10 ^ 10"
  shows "Matrix4_inverse m
           = Inr \<lparr>data = map (\<lambda>c. 1 / Matrix4_determinant m * c) (adjugate (data m))\<rparr>"
proof -
  define u where "u = 1 / Matrix4_determinant m"
  have "Matrix4_inverse m = Inr \<lparr>data = map (\<lambda>c. u * c) (adjugate (data m))\<rparr>"
    using assms
    by (simp add: Matrix4_inverse_def Let_def Matrix4_init_def adjugate_def u_def [symmetric])
       (simp add: algebra_simps)
  then show ?thesis by (simp only: u_def)
qed





text \<open>
  C5. \<^verbatim>\<open>Matrix4.inverse\<close> raises exactly when \<open>|det| < 10\<^sup>-\<^sup>1\<^sup>0\<close>, and what it raises is
  Python's \<^verbatim>\<open>ValueError\<close> (the DomainError of the spec); for every matrix with
  \<open>|det| \<ge> 10\<^sup>-\<^sup>1\<^sup>0\<close> it returns a matrix of sixteen cells.
\<close>

theorem C5_inverse_raises_iff_singular:
  "(Matrix4_inverse m = Inl ValueError \<longleftrightarrow> \<bar>Matrix4_determinant m\<bar> < 1 / 10 ^ 10) \<and>
   (1 / 10 ^ 10 \<le> \<bar>Matrix4_determinant m\<bar> \<longrightarrow>
      (\<exists>r. Matrix4_inverse m = Inr r \<and> length (data r) = 16))"
proof (cases "\<bar>Matrix4_determinant m\<bar> < 1 / 10 ^ 10")
  case True
  then show ?thesis by (simp add: Matrix4_inverse_def)
next
  case False
  then show ?thesis by (simp add: inverse_data length_adjugate)
qed

text \<open>C5 at a matrix of determinant 0 and at one of determinant 2.\<close>

theorem C5_inverse_raises_iff_singular_witness:
  "Matrix4_inverse singular_example = Inl ValueError \<and>
   (\<exists>r. Matrix4_inverse shear_example = Inr r \<and> length (data r) = 16)"
proof -
  have "Matrix4_determinant singular_example = 0" "Matrix4_determinant shear_example = 2"
    by (simp_all add: Matrix4_determinant_def singular_example_def shear_example_def)
  then show ?thesis
    using C5_inverse_raises_iff_singular [of singular_example]
          C5_inverse_raises_iff_singular [of shear_example]
    by simp
qed



section \<open>Inverse square root: estimate and refinement\<close>















section \<open>The bit-level estimate\<close>

















section \<open>Normalize\<close>






























end
